theory Spec2Isabelle
  imports Main "HOL-Library.Sublist"
begin

section \<open>The Teleporter WebSocket relay (teleporter-websocket-relay.js)\<close>

text \<open>
  The relay is one JavaScript object driven by callbacks. Node runs every callback to
  completion on a single thread, and none of the callbacks of the relay suspends before its
  last statement (\<^verbatim>\<open>broadcastEvent\<close> and \<^verbatim>\<open>handleClientMessage\<close> are declared
  \<^verbatim>\<open>async\<close> but contain no \<^verbatim>\<open>await\<close>), so a run of the relay is a sequence of
  atomic handler executions. The model is a state record, one function per handler, and a
  fold of the handlers over a list of occurrences.

  Values that come from outside the repository are inputs of the model: the wall-clock
  \<^verbatim>\<open>new Date().toISOString()\<close> is an argument of the handler that reads it, and the
  library functions \<^verbatim>\<open>ethers.toUtf8String\<close> and \<^verbatim>\<open>JSON.parse\<close> are the two
  fields of a record \<open>lib\<close>, each returning its exception as a value.
\<close>

subsection \<open>Events\<close>

text \<open>
  The object literals of lines 88-99 and 117-128. A field that one of the two literals does
  not have is \<open>None\<close>. \<open>messageType\<close> is only ever assigned in the \<^verbatim>\<open>catch\<close> branch.
\<close>

record event_data =
  sender :: "string option"
  destinationAddress :: "string option"
  requiredGasLimit :: "string option"
  message :: string
  messageType :: "string option"

record event =
  type :: string
  network :: string
  messageId :: string
  sourceChain :: "string option"
  destinationChain :: "string option"
  deliverer :: "string option"
  timestamp :: string
  data :: event_data

text \<open>
  The arguments ethers passes to the two listeners, after the ABI of lines 6-9. A
  \<^verbatim>\<open>bytes\<close> value arrives as a hex string, a \<^verbatim>\<open>uint256\<close> as a BigInt.
\<close>

record teleporter_message =
  tm_sourceBlockchainID :: string
  tm_originSenderAddress :: string
  tm_message :: string

record fee_info =
  feeTokenAddress :: string
  amount :: nat

record send_message =
  sm_destinationBlockchainID :: string
  sm_destinationAddress :: string
  sm_feeInfo :: fee_info
  sm_requiredGasLimit :: nat
  sm_allowedRelayerAddresses :: "string list"
  sm_message :: string

record receive_args =
  r_messageID :: string
  r_sourceBlockchainID :: string
  r_deliverer :: string
  r_relayerRewardAddress :: string
  r_teleporterMessage :: teleporter_message

record send_args =
  s_messageID :: string
  s_destinationBlockchainID :: string
  s_message :: send_message
  s_feeInfo :: fee_info

subsection \<open>JSON values and the library\<close>

text \<open>
  What \<^verbatim>\<open>JSON.parse\<close> returns. Of a number the relay observes only whether it is zero.
\<close>

datatype json =
  JNull
  | JBool bool
  | JNum int
  | JStr string
  | JArr "json list"
  | JObj "(string \<times> json) list"

text \<open>\<^verbatim>\<open>data.p\<close>: throws a TypeError on \<^verbatim>\<open>null\<close>, is \<^verbatim>\<open>undefined\<close> (here \<open>None\<close>)
  on a value without that property.\<close>

definition TypeError_null :: string where
  "TypeError_null = ''Cannot read properties of null''"

fun get_prop :: "json \<Rightarrow> string \<Rightarrow> string + json option" where
  "get_prop JNull p = Inl TypeError_null"
| "get_prop (JObj kvs) p = Inr (map_of kvs p)"
| "get_prop v p = Inr None"

text \<open>JavaScript truthiness, and \<^verbatim>\<open>a || b\<close> where \<open>a\<close> may be \<^verbatim>\<open>undefined\<close>.\<close>

fun truthy :: "json \<Rightarrow> bool" where
  "truthy JNull = False"
| "truthy (JBool b) = b"
| "truthy (JNum n) = (n \<noteq> 0)"
| "truthy (JStr s) = (s \<noteq> [])"
| "truthy (JArr vs) = True"
| "truthy (JObj kvs) = True"

fun or_else :: "json option \<Rightarrow> json \<Rightarrow> json" where
  "or_else None b = b"
| "or_else (Some a) b = (if truthy a then a else b)"

record lib =
  toUtf8String :: "string \<Rightarrow> string option"
  JSON_parse :: "string \<Rightarrow> string + json"

text \<open>\<^verbatim>\<open>BigInt.prototype.toString()\<close>: the decimal digits.\<close>

fun toString :: "nat \<Rightarrow> string" where
  "toString n =
     (if n < 10 then [char_of (48 + n)]
      else toString (n div 10) @ [char_of (48 + n mod 10)])"

declare toString.simps [simp del]

subsection \<open>Sockets, wire messages and the relay state\<close>

datatype ready_state = CONNECTING | OPEN | CLOSING | CLOSED

record net_stats =
  sent :: nat
  received :: nat

text \<open>
  The object \<^verbatim>\<open>stats\<close> of lines 182-187, without its \<^verbatim>\<open>type\<close>. Its
  \<^verbatim>\<open>networks\<close> is an object used as a dictionary: the map holds its own properties.
\<close>

record stats =
  totalMessages :: nat
  connectedClients :: nat
  networks :: "string \<rightharpoonup> net_stats"

text \<open>The objects handed to \<^verbatim>\<open>JSON.stringify\<close> and then to \<^verbatim>\<open>ws.send\<close>.\<close>

datatype server_msg =
  Connected string "string list"
  | History "event list"
  | EventMsg event
  | Subscribed json
  | Stats stats
  | Error string

text \<open>
  A socket of the \<^verbatim>\<open>ws\<close> library: its \<^verbatim>\<open>readyState\<close> and the payloads the relay
  has passed to its \<^verbatim>\<open>send\<close>, oldest first.
\<close>

record socket =
  readyState :: ready_state
  outbox :: "server_msg list"

text \<open>\<^verbatim>\<open>config.networks\<close> is given by its entries, in the order \<^verbatim>\<open>Object.keys\<close>
  enumerates them.\<close>

record config =
  networks :: "(string \<times> string) list"
  teleporter :: string

text \<open>
  The fields of \<^verbatim>\<open>TeleporterWebSocketRelay\<close> that the handlers read or write, and the
  sockets the server has created so far (socket \<open>i\<close> exists when \<open>i < nsockets\<close>).
  \<open>clients\<close> is the \<^verbatim>\<open>Set\<close>, in insertion order. The ethers providers and contracts
  of lines 15-16 only deliver the occurrences and are not part of the state.
\<close>

record relay =
  cfg :: config
  port :: nat
  clients :: "nat list"
  messageHistory :: "event list"
  maxHistorySize :: nat
  sockets :: "nat \<Rightarrow> socket"
  nsockets :: nat

definition Object_keys :: "('k \<times> 'v) list \<Rightarrow> 'k list" where
  "Object_keys kvs = map fst kvs"

definition constructor :: "config \<Rightarrow> nat \<Rightarrow> relay" where
  "constructor config p =
     \<lparr> cfg = config, port = p, clients = [], messageHistory = [], maxHistorySize = 100,
       sockets = (\<lambda>_. \<lparr> readyState = CLOSED, outbox = [] \<rparr>), nsockets = 0 \<rparr>"

definition Set_add :: "nat \<Rightarrow> nat list \<Rightarrow> nat list" where
  "Set_add x xs = (if x \<in> set xs then xs else xs @ [x])"

definition Set_delete :: "nat \<Rightarrow> nat list \<Rightarrow> nat list" where
  "Set_delete x xs = removeAll x xs"

definition ws_send :: "nat \<Rightarrow> server_msg \<Rightarrow> relay \<Rightarrow> relay" where
  "ws_send ws m s =
     s\<lparr> sockets := (sockets s)(ws := (sockets s ws)\<lparr> outbox := outbox (sockets s ws) @ [m] \<rparr>) \<rparr>"

subsection \<open>broadcastEvent (lines 147-168)\<close>

text \<open>Lines 149-152: \<^verbatim>\<open>push\<close>, then one \<^verbatim>\<open>shift\<close> when the array is too long.\<close>

definition add_to_history :: "event \<Rightarrow> relay \<Rightarrow> relay" where
  "add_to_history e s =
     (let h = messageHistory s @ [e]
      in s\<lparr> messageHistory := (if length h > maxHistorySize s then tl h else h) \<rparr>)"

text \<open>Lines 156-160: the loop over the set, sending to the sockets that are open.\<close>

fun send_to_clients :: "server_msg \<Rightarrow> nat list \<Rightarrow> relay \<Rightarrow> relay" where
  "send_to_clients m [] s = s"
| "send_to_clients m (client # rest) s =
     send_to_clients m rest
       (if readyState (sockets s client) = OPEN then ws_send client m s else s)"

definition broadcastEvent :: "event \<Rightarrow> relay \<Rightarrow> relay" where
  "broadcastEvent e s =
     (let s1 = add_to_history e s
      in send_to_clients (EventMsg e) (clients s1) s1)"

text \<open>
  The same statements with the states the relay passes through while it runs them, in the
  order of the source: first the state after lines 149-152, then the state after each
  iteration of the loop of lines 156-160.
\<close>

fun send_to_clients_steps :: "server_msg \<Rightarrow> nat list \<Rightarrow> relay \<Rightarrow> relay list" where
  "send_to_clients_steps m [] s = []"
| "send_to_clients_steps m (client # rest) s =
     (let s' = (if readyState (sockets s client) = OPEN then ws_send client m s else s)
      in s' # send_to_clients_steps m rest s')"

definition broadcastEvent_steps :: "event \<Rightarrow> relay \<Rightarrow> relay list" where
  "broadcastEvent_steps e s =
     (let s1 = add_to_history e s
      in s1 # send_to_clients_steps (EventMsg e) (clients s1) s1)"

subsection \<open>The two listeners of startMonitoring (lines 83-145)\<close>

text \<open>The \<^verbatim>\<open>try\<close>/\<^verbatim>\<open>catch\<close> of lines 101-108 and 130-137.\<close>

definition decode_into :: "lib \<Rightarrow> string \<Rightarrow> event_data \<Rightarrow> event_data" where
  "decode_into l bytes d =
     (case toUtf8String l bytes of
        Some text \<Rightarrow> d\<lparr> message := text \<rparr>
      | None \<Rightarrow> d\<lparr> message := bytes, messageType := Some ''hex'' \<rparr>)"

definition received_event :: "lib \<Rightarrow> string \<Rightarrow> receive_args \<Rightarrow> string \<Rightarrow> event" where
  "received_event l networkName a now =
     \<lparr> type = ''message_received'', network = networkName, messageId = r_messageID a,
       sourceChain = Some (r_sourceBlockchainID a), destinationChain = None,
       deliverer = Some (r_deliverer a), timestamp = now,
       data = decode_into l (tm_message (r_teleporterMessage a))
         \<lparr> sender = Some (tm_originSenderAddress (r_teleporterMessage a)),
           destinationAddress = None, requiredGasLimit = None,
           message = [], messageType = None \<rparr> \<rparr>"

definition sent_event :: "lib \<Rightarrow> string \<Rightarrow> send_args \<Rightarrow> string \<Rightarrow> event" where
  "sent_event l networkName a now =
     \<lparr> type = ''message_sent'', network = networkName, messageId = s_messageID a,
       sourceChain = None, destinationChain = Some (s_destinationBlockchainID a),
       deliverer = None, timestamp = now,
       data = decode_into l (sm_message (s_message a))
         \<lparr> sender = None,
           destinationAddress = Some (sm_destinationAddress (s_message a)),
           requiredGasLimit = Some (toString (sm_requiredGasLimit (s_message a))),
           message = [], messageType = None \<rparr> \<rparr>"

definition on_ReceiveCrossChainMessage ::
  "lib \<Rightarrow> string \<Rightarrow> receive_args \<Rightarrow> string \<Rightarrow> relay \<Rightarrow> relay" where
  "on_ReceiveCrossChainMessage l networkName a now s =
     broadcastEvent (received_event l networkName a now) s"

definition on_SendCrossChainMessage ::
  "lib \<Rightarrow> string \<Rightarrow> send_args \<Rightarrow> string \<Rightarrow> relay \<Rightarrow> relay" where
  "on_SendCrossChainMessage l networkName a now s =
     broadcastEvent (sent_event l networkName a now) s"

subsection \<open>handleClientMessage (lines 170-210)\<close>

text \<open>
  The properties every object inherits from \<^verbatim>\<open>Object.prototype\<close>. Each of them reads as
  a function, \<^verbatim>\<open>__proto__\<close> as the prototype itself; all of them are truthy.
\<close>

definition Object_prototype_keys :: "string list" where
  "Object_prototype_keys =
     [''constructor'', ''__defineGetter__'', ''__defineSetter__'', ''hasOwnProperty'',
      ''__lookupGetter__'', ''__lookupSetter__'', ''isPrototypeOf'', ''propertyIsEnumerable'',
      ''toString'', ''valueOf'', ''__proto__'', ''toLocaleString'']"

text \<open>
  Lines 190-199: the loop that fills \<^verbatim>\<open>stats.networks\<close>, which starts as \<^verbatim>\<open>{}\<close>.
  \<^verbatim>\<open>stats.networks[msg.network]\<close> reads the own property of that name and, where there is
  none, the inherited one. So the test of line 191 creates the entry only for a name that
  is neither an own property yet nor inherited; and for an inherited name without an own
  property the increment of lines 194-198 lands on the inherited value, outside
  \<^verbatim>\<open>stats.networks\<close>, which stays as it is.
\<close>

fun count_messages ::
  "(string \<rightharpoonup> net_stats) \<Rightarrow> event list \<Rightarrow> (string \<rightharpoonup> net_stats)" where
  "count_messages nets [] = nets"
| "count_messages nets (msg # rest) =
     (let nets1 =
        (if nets (network msg) = None \<and> network msg \<notin> set Object_prototype_keys
         then nets(network msg \<mapsto> \<lparr> sent = 0, received = 0 \<rparr>)
         else nets)
      in count_messages
        (case nets1 (network msg) of
           None \<Rightarrow> nets1
         | Some k \<Rightarrow>
             (if type msg = ''message_sent''
              then nets1(network msg \<mapsto> k\<lparr> sent := sent k + 1 \<rparr>)
              else nets1(network msg \<mapsto> k\<lparr> received := received k + 1 \<rparr>)))
        rest)"

definition stats_msg :: "relay \<Rightarrow> server_msg" where
  "stats_msg s =
     Stats \<lparr> totalMessages = length (messageHistory s),
             connectedClients = length (clients s),
             stats.networks = count_messages Map.empty (messageHistory s) \<rparr>"

definition unknown_type :: "nat \<Rightarrow> relay \<Rightarrow> relay" where
  "unknown_type ws s = ws_send ws (Error ''Unknown message type'') s"

definition handleClientMessage :: "nat \<Rightarrow> json \<Rightarrow> relay \<Rightarrow> string + relay" where
  "handleClientMessage ws d s =
     (case get_prop d ''type'' of
        Inl err \<Rightarrow> Inl err
      | Inr (Some (JStr t)) \<Rightarrow>
          (if t = ''subscribe'' then
             (case get_prop d ''networks'' of
                Inl err \<Rightarrow> Inl err
              | Inr n \<Rightarrow>
                  Inr (ws_send ws
                    (Subscribed
                      (or_else n (JArr (map JStr (Object_keys (networks (cfg s))))))) s))
           else if t = ''get_stats'' then Inr (ws_send ws (stats_msg s) s)
           else Inr (unknown_type ws s))
      | Inr _ \<Rightarrow> Inr (unknown_type ws s))"

subsection \<open>The connection handlers (lines 40-77)\<close>

text \<open>The server accepts a connection: a new socket, open, nothing sent on it yet.\<close>

definition accept :: "relay \<Rightarrow> relay" where
  "accept s =
     s\<lparr> sockets := (sockets s)(nsockets s := \<lparr> readyState = OPEN, outbox = [] \<rparr>),
        nsockets := Suc (nsockets s) \<rparr>"

definition on_connection :: "nat \<Rightarrow> string \<Rightarrow> relay \<Rightarrow> relay" where
  "on_connection ws now s =
     (let s1 = s\<lparr> clients := Set_add ws (clients s) \<rparr>;
          s2 = ws_send ws (Connected now (Object_keys (networks (cfg s1)))) s1
      in if length (messageHistory s2) > 0
         then ws_send ws (History (messageHistory s2)) s2
         else s2)"

definition on_message :: "lib \<Rightarrow> nat \<Rightarrow> string \<Rightarrow> relay \<Rightarrow> relay" where
  "on_message l ws raw s =
     (case JSON_parse l raw of
        Inl err \<Rightarrow> ws_send ws (Error err) s
      | Inr d \<Rightarrow>
          (case handleClientMessage ws d s of
             Inl err \<Rightarrow> ws_send ws (Error err) s
           | Inr s' \<Rightarrow> s'))"

definition on_close :: "nat \<Rightarrow> relay \<Rightarrow> relay" where
  "on_close ws s = s\<lparr> clients := Set_delete ws (clients s) \<rparr>"

definition set_readyState :: "nat \<Rightarrow> ready_state \<Rightarrow> relay \<Rightarrow> relay" where
  "set_readyState ws st s =
     s\<lparr> sockets := (sockets s)(ws := (sockets s ws)\<lparr> readyState := st \<rparr>) \<rparr>"

subsection \<open>Runs\<close>

text \<open>
  What can happen to a started relay. A connection creates the next socket. A message, the
  start of a closing handshake and the close of a socket happen to a socket that exists;
  the library sets \<^verbatim>\<open>readyState\<close> before it emits \<^verbatim>\<open>close\<close>. The two contract events
  carry the name of the network whose listener fires, which is a key of
  \<^verbatim>\<open>config.networks\<close>. Every occurrence that reads the clock carries the time read.
\<close>

datatype occurrence =
  Connection string
  | Message nat string
  | BeginClose nat
  | Close nat
  | ReceiveCrossChainMessage string receive_args string
  | SendCrossChainMessage string send_args string

definition monitored :: "relay \<Rightarrow> string \<Rightarrow> bool" where
  "monitored s networkName = (networkName \<in> set (Object_keys (networks (cfg s))))"

fun step :: "lib \<Rightarrow> relay \<Rightarrow> occurrence \<Rightarrow> relay" where
  "step l s (Connection now) = on_connection (nsockets s) now (accept s)"
| "step l s (Message ws raw) = (if ws < nsockets s then on_message l ws raw s else s)"
| "step l s (BeginClose ws) =
     (if ws < nsockets s \<and> readyState (sockets s ws) = OPEN
      then set_readyState ws CLOSING s else s)"
| "step l s (Close ws) =
     (if ws < nsockets s then on_close ws (set_readyState ws CLOSED s) else s)"
| "step l s (ReceiveCrossChainMessage networkName a now) =
     (if monitored s networkName then on_ReceiveCrossChainMessage l networkName a now s else s)"
| "step l s (SendCrossChainMessage networkName a now) =
     (if monitored s networkName then on_SendCrossChainMessage l networkName a now s else s)"

definition run :: "lib \<Rightarrow> relay \<Rightarrow> occurrence list \<Rightarrow> relay" where
  "run l s tr = foldl (step l) s tr"

text \<open>An invariant of every run: the registry holds each session once, and only sessions
  whose socket exists.\<close>

definition wf_clients :: "relay \<Rightarrow> bool" where
  "wf_clients s = (distinct (clients s) \<and> list_all (\<lambda>w. w < nsockets s) (clients s))"

text \<open>The events a run emits, in order: one per contract event of a monitored network.\<close>

fun emitted_by :: "lib \<Rightarrow> config \<Rightarrow> occurrence \<Rightarrow> event list" where
  "emitted_by l c (ReceiveCrossChainMessage networkName a now) =
     (if networkName \<in> set (Object_keys (networks c))
      then [received_event l networkName a now] else [])"
| "emitted_by l c (SendCrossChainMessage networkName a now) =
     (if networkName \<in> set (Object_keys (networks c))
      then [sent_event l networkName a now] else [])"
| "emitted_by l c _ = []"

definition emitted :: "lib \<Rightarrow> config \<Rightarrow> occurrence list \<Rightarrow> event list" where
  "emitted l c tr = concat (map (emitted_by l c) tr)"

text \<open>What a socket has been sent: the events replayed in history messages, and the events
  broadcast live.\<close>

fun replayed :: "server_msg list \<Rightarrow> event list" where
  "replayed [] = []"
| "replayed (History es # ms) = es @ replayed ms"
| "replayed (m # ms) = replayed ms"

fun live :: "server_msg list \<Rightarrow> event list" where
  "live [] = []"
| "live (EventMsg e # ms) = e # live ms"
| "live (m # ms) = live ms"

subsection \<open>A concrete library, configuration and contract events\<close>

text \<open>Used where a property is evaluated on a concrete run.\<close>

definition demo_lib :: lib where
  "demo_lib =
     \<lparr> toUtf8String = (\<lambda>bytes. if bytes = ''0x6869'' then Some ''hi'' else None),
       JSON_parse = (\<lambda>raw. if raw = ''null'' then Inr JNull else Inl ''Unexpected token'') \<rparr>"

definition demo_config :: config where
  "demo_config = \<lparr> networks = [(''A'', ''http://a''), (''B'', ''http://b'')], teleporter = ''0x253b'' \<rparr>"

definition demo_fee :: fee_info where
  "demo_fee = \<lparr> feeTokenAddress = ''0x00'', amount = 0 \<rparr>"

definition demo_send :: "string \<Rightarrow> string \<Rightarrow> send_args" where
  "demo_send mid bytes =
     \<lparr> s_messageID = mid, s_destinationBlockchainID = ''0xb1'',
       s_message = \<lparr> sm_destinationBlockchainID = ''0xb1'', sm_destinationAddress = ''0xd0'',
         sm_feeInfo = demo_fee, sm_requiredGasLimit = 100000, sm_allowedRelayerAddresses = [],
         sm_message = bytes \<rparr>,
       s_feeInfo = demo_fee \<rparr>"

definition demo_receive :: "string \<Rightarrow> string \<Rightarrow> receive_args" where
  "demo_receive mid bytes =
     \<lparr> r_messageID = mid, r_sourceBlockchainID = ''0xa1'', r_deliverer = ''0xde'',
       r_relayerRewardAddress = ''0x4e'',
       r_teleporterMessage = \<lparr> tm_sourceBlockchainID = ''0xa1'',
         tm_originSenderAddress = ''0x5e'', tm_message = bytes \<rparr> \<rparr>"

text \<open>The sum of all the counts of a \<^verbatim>\<open>stats.networks\<close> object.\<close>

definition total_counted :: "(string \<rightharpoonup> net_stats) \<Rightarrow> nat" where
  "total_counted nets =
     (\<Sum>n \<in> dom nets. case nets n of None \<Rightarrow> 0 | Some k \<Rightarrow> sent k + received k)"

text \<open>A configuration with a network named \<^verbatim>\<open>constructor\<close>.\<close>

definition proto_config :: config where
  "proto_config =
     \<lparr> networks = [(''constructor'', ''http://c''), (''B'', ''http://b'')], teleporter = ''0x253b'' \<rparr>"

text \<open>A library whose \<^verbatim>\<open>JSON.parse\<close> yields the request \<^verbatim>\<open>{type: 'get_stats'}\<close>.\<close>

definition stats_lib :: lib where
  "stats_lib = demo_lib\<lparr> JSON_parse := (\<lambda>raw. Inr (JObj [(''type'', JStr ''get_stats'')])) \<rparr>"

text \<open>The connection acknowledgements and history replays among the messages of a socket.\<close>

fun handshake :: "server_msg list \<Rightarrow> server_msg list" where
  "handshake [] = []"
| "handshake (Connected now ns # ms) = Connected now ns # handshake ms"
| "handshake (History es # ms) = History es # handshake ms"
| "handshake (m # ms) = handshake ms"

text \<open>The request \<^verbatim>\<open>{type: 'subscribe', networks: ['A']}\<close>, and a library whose
  \<^verbatim>\<open>JSON.parse\<close> yields it.\<close>

definition subscribe_A :: json where
  "subscribe_A = JObj [(''type'', JStr ''subscribe''), (''networks'', JArr [JStr ''A''])]"

definition subscribe_lib :: lib where
  "subscribe_lib = demo_lib\<lparr> JSON_parse := (\<lambda>raw. Inr subscribe_A) \<rparr>"

section \<open>Properties\<close>

subsection \<open>What each handler changes\<close>

lemma ws_send_fields [simp]:
  "cfg (ws_send ws m s) = cfg s"
  "port (ws_send ws m s) = port s"
  "clients (ws_send ws m s) = clients s"
  "messageHistory (ws_send ws m s) = messageHistory s"
  "maxHistorySize (ws_send ws m s) = maxHistorySize s"
  "nsockets (ws_send ws m s) = nsockets s"
  by (simp_all add: ws_send_def)

lemma ws_send_sockets:
  "sockets (ws_send ws m s) w =
     (if w = ws then (sockets s ws)\<lparr> outbox := outbox (sockets s ws) @ [m] \<rparr> else sockets s w)"
  by (simp add: ws_send_def)

lemma ws_send_readyState [simp]:
  "readyState (sockets (ws_send ws m s) w) = readyState (sockets s w)"
  by (simp add: ws_send_def)

lemma ws_send_outbox:
  "outbox (sockets (ws_send ws m s) w) =
     (if w = ws then outbox (sockets s w) @ [m] else outbox (sockets s w))"
  by (simp add: ws_send_def)

lemma send_to_clients_fields [simp]:
  "cfg (send_to_clients m cs s) = cfg s"
  "port (send_to_clients m cs s) = port s"
  "clients (send_to_clients m cs s) = clients s"
  "messageHistory (send_to_clients m cs s) = messageHistory s"
  "maxHistorySize (send_to_clients m cs s) = maxHistorySize s"
  "nsockets (send_to_clients m cs s) = nsockets s"
  by (induction cs arbitrary: s; simp)+

lemma send_to_clients_readyState [simp]:
  "readyState (sockets (send_to_clients m cs s) w) = readyState (sockets s w)"
  by (induction cs arbitrary: s) simp_all

lemma send_to_clients_outbox:
  "outbox (sockets (send_to_clients m cs s) w) =
     outbox (sockets s w) @
       (if readyState (sockets s w) = OPEN then replicate (count_list cs w) m else [])"
  by (induction cs arbitrary: s) (simp_all add: ws_send_outbox replicate_app_Cons_same)

lemma add_to_history_fields [simp]:
  "cfg (add_to_history e s) = cfg s"
  "port (add_to_history e s) = port s"
  "clients (add_to_history e s) = clients s"
  "maxHistorySize (add_to_history e s) = maxHistorySize s"
  "nsockets (add_to_history e s) = nsockets s"
  "sockets (add_to_history e s) = sockets s"
  by (simp_all add: add_to_history_def Let_def)

lemma add_to_history_messageHistory:
  "messageHistory (add_to_history e s) =
     (if length (messageHistory s) < maxHistorySize s then messageHistory s @ [e]
      else tl (messageHistory s @ [e]))"
  by (simp add: add_to_history_def Let_def)

lemma broadcastEvent_fields [simp]:
  "cfg (broadcastEvent e s) = cfg s"
  "port (broadcastEvent e s) = port s"
  "clients (broadcastEvent e s) = clients s"
  "maxHistorySize (broadcastEvent e s) = maxHistorySize s"
  "nsockets (broadcastEvent e s) = nsockets s"
  "messageHistory (broadcastEvent e s) = messageHistory (add_to_history e s)"
  by (simp_all add: broadcastEvent_def Let_def)

lemma broadcastEvent_readyState [simp]:
  "readyState (sockets (broadcastEvent e s) w) = readyState (sockets s w)"
  by (simp add: broadcastEvent_def Let_def)

lemma broadcastEvent_outbox:
  "outbox (sockets (broadcastEvent e s) w) =
     outbox (sockets s w) @
       (if readyState (sockets s w) = OPEN then replicate (count_list (clients s) w) (EventMsg e)
        else [])"
  by (simp add: broadcastEvent_def Let_def send_to_clients_outbox)

lemma on_message_shape:
  "\<exists>m. on_message l ws raw s = ws_send ws m s \<and> replayed [m] = [] \<and> live [m] = []"
  by (cases "JSON_parse l raw")
     (auto simp: on_message_def handleClientMessage_def unknown_type_def stats_msg_def
        split: sum.splits option.splits json.splits)

lemma on_message_fields [simp]:
  "cfg (on_message l ws raw s) = cfg s"
  "port (on_message l ws raw s) = port s"
  "clients (on_message l ws raw s) = clients s"
  "messageHistory (on_message l ws raw s) = messageHistory s"
  "maxHistorySize (on_message l ws raw s) = maxHistorySize s"
  "nsockets (on_message l ws raw s) = nsockets s"
  using on_message_shape [of l ws raw s] by auto

lemma on_message_readyState [simp]:
  "readyState (sockets (on_message l ws raw s) w) = readyState (sockets s w)"
  using on_message_shape [of l ws raw s] by auto

lemma on_connection_fields [simp]:
  "cfg (on_connection ws now s) = cfg s"
  "port (on_connection ws now s) = port s"
  "clients (on_connection ws now s) = Set_add ws (clients s)"
  "messageHistory (on_connection ws now s) = messageHistory s"
  "maxHistorySize (on_connection ws now s) = maxHistorySize s"
  "nsockets (on_connection ws now s) = nsockets s"
  by (simp_all add: on_connection_def Let_def)

lemma on_connection_readyState [simp]:
  "readyState (sockets (on_connection ws now s) w) = readyState (sockets s w)"
  by (simp add: on_connection_def Let_def)

lemma on_connection_outbox:
  "outbox (sockets (on_connection ws now s) w) =
     (if w = ws
      then outbox (sockets s w) @ Connected now (Object_keys (networks (cfg s))) #
             (if messageHistory s = [] then [] else [History (messageHistory s)])
      else outbox (sockets s w))"
  by (simp add: on_connection_def Let_def ws_send_outbox)

lemma accept_fields [simp]:
  "cfg (accept s) = cfg s"
  "port (accept s) = port s"
  "clients (accept s) = clients s"
  "messageHistory (accept s) = messageHistory s"
  "maxHistorySize (accept s) = maxHistorySize s"
  "nsockets (accept s) = Suc (nsockets s)"
  "sockets (accept s) w =
     (if w = nsockets s then \<lparr> readyState = OPEN, outbox = [] \<rparr> else sockets s w)"
  by (simp_all add: accept_def)

lemma on_close_fields [simp]:
  "cfg (on_close ws s) = cfg s"
  "port (on_close ws s) = port s"
  "clients (on_close ws s) = removeAll ws (clients s)"
  "messageHistory (on_close ws s) = messageHistory s"
  "maxHistorySize (on_close ws s) = maxHistorySize s"
  "nsockets (on_close ws s) = nsockets s"
  "sockets (on_close ws s) = sockets s"
  by (simp_all add: on_close_def Set_delete_def)

lemma set_readyState_fields [simp]:
  "cfg (set_readyState ws st s) = cfg s"
  "port (set_readyState ws st s) = port s"
  "clients (set_readyState ws st s) = clients s"
  "messageHistory (set_readyState ws st s) = messageHistory s"
  "maxHistorySize (set_readyState ws st s) = maxHistorySize s"
  "nsockets (set_readyState ws st s) = nsockets s"
  "outbox (sockets (set_readyState ws st s) w) = outbox (sockets s w)"
  "readyState (sockets (set_readyState ws st s) w) =
     (if w = ws then st else readyState (sockets s w))"
  by (simp_all add: set_readyState_def)

lemma step_cfg [simp]: "cfg (step l s a) = cfg s"
  by (cases a) (simp_all add: on_ReceiveCrossChainMessage_def on_SendCrossChainMessage_def)

lemma step_maxHistorySize [simp]: "maxHistorySize (step l s a) = maxHistorySize s"
  by (cases a) (simp_all add: on_ReceiveCrossChainMessage_def on_SendCrossChainMessage_def)

lemma step_port [simp]: "port (step l s a) = port s"
  by (cases a) (simp_all add: on_ReceiveCrossChainMessage_def on_SendCrossChainMessage_def)

lemma step_messageHistory:
  "messageHistory (step l s a) =
     (case emitted_by l (cfg s) a of
        [] \<Rightarrow> messageHistory s
      | e # _ \<Rightarrow> messageHistory (add_to_history e s))"
  by (cases a)
     (simp_all add: on_ReceiveCrossChainMessage_def on_SendCrossChainMessage_def monitored_def)

lemma run_Nil [simp]: "run l s [] = s"
  by (simp add: run_def)

lemma run_Cons [simp]: "run l s (a # tr) = run l (step l s a) tr"
  by (simp add: run_def)

lemma run_snoc [simp]: "run l s (tr @ [a]) = step l (run l s tr) a"
  by (simp add: run_def)

lemma run_append: "run l s (tr @ tr') = run l (run l s tr) tr'"
  by (simp add: run_def)

lemma run_cfg [simp]: "cfg (run l s tr) = cfg s"
  by (induction tr rule: rev_induct) simp_all

lemma run_maxHistorySize [simp]: "maxHistorySize (run l s tr) = maxHistorySize s"
  by (induction tr rule: rev_induct) simp_all

lemma constructor_fields [simp]:
  "cfg (constructor c p) = c"
  "port (constructor c p) = p"
  "clients (constructor c p) = []"
  "messageHistory (constructor c p) = []"
  "maxHistorySize (constructor c p) = 100"
  "nsockets (constructor c p) = 0"
  by (simp_all add: constructor_def)

lemma emitted_Nil [simp]: "emitted l c [] = []"
  by (simp add: emitted_def)

lemma emitted_snoc [simp]: "emitted l c (tr @ [a]) = emitted l c tr @ emitted_by l c a"
  by (simp add: emitted_def)

lemma emitted_append: "emitted l c (tr @ tr') = emitted l c tr @ emitted l c tr'"
  by (simp add: emitted_def)

lemma emitted_by_cases:
  "emitted_by l c a = [] \<or> (\<exists>e. emitted_by l c a = [e])"
  by (cases a) simp_all

lemma history_bounded:
  assumes "0 < H"
  shows "(if length (drop (length es - H) es) < H then drop (length es - H) es @ [e]
          else tl (drop (length es - H) es @ [e])) = drop (length (es @ [e]) - H) (es @ [e])"
proof (cases "length es < H")
  case True
  then show ?thesis by simp
next
  case False
  then have "drop (length es - H) es \<noteq> []" using assms by simp
  then have "tl (drop (length es - H) es @ [e]) = drop (Suc (length es - H)) es @ [e]"
    by (simp add: drop_Suc tl_drop)
  moreover have "Suc (length es) - H = Suc (length es - H)" using False by simp
  ultimately show ?thesis using False assms by simp
qed

lemma run_messageHistory:
  "messageHistory (run l (constructor c p) tr) =
     drop (length (emitted l c tr) - 100) (emitted l c tr)"
proof (induction tr rule: rev_induct)
  case Nil
  show ?case by simp
next
  case (snoc a tr)
  show ?case
    using emitted_by_cases [of l c a] history_bounded [of 100 "emitted l c tr"]
    by (auto simp: step_messageHistory add_to_history_messageHistory snoc)
qed

lemma wf_clients_constructor [simp]: "wf_clients (constructor c p)"
  by (simp add: wf_clients_def)

lemma step_nsockets:
  "nsockets (step l s a) = (case a of Connection _ \<Rightarrow> Suc (nsockets s) | _ \<Rightarrow> nsockets s)"
  by (cases a) (simp_all add: on_ReceiveCrossChainMessage_def on_SendCrossChainMessage_def)

lemma step_clients:
  "clients (step l s a) =
     (case a of
        Connection _ \<Rightarrow> Set_add (nsockets s) (clients s)
      | Close ws \<Rightarrow> (if ws < nsockets s then removeAll ws (clients s) else clients s)
      | _ \<Rightarrow> clients s)"
  by (cases a) (simp_all add: on_ReceiveCrossChainMessage_def on_SendCrossChainMessage_def)

lemma wf_clients_step: "wf_clients s \<Longrightarrow> wf_clients (step l s a)"
  by (cases a)
     (auto simp: wf_clients_def Set_add_def list_all_iff distinct_removeAll
        on_ReceiveCrossChainMessage_def on_SendCrossChainMessage_def)

lemma wf_clients_run: "wf_clients s \<Longrightarrow> wf_clients (run l s tr)"
  by (induction tr rule: rev_induct) (simp_all add: wf_clients_step)

lemma count_list_distinct:
  "distinct xs \<Longrightarrow> count_list xs x = (if x \<in> set xs then 1 else 0)"
  by (induction xs) auto

lemma broadcastEvent_outbox_wf:
  "wf_clients s \<Longrightarrow>
   outbox (sockets (broadcastEvent e s) w) =
     outbox (sockets s w) @
       (if w \<in> set (clients s) \<and> readyState (sockets s w) = OPEN then [EventMsg e] else [])"
  by (simp add: broadcastEvent_outbox wf_clients_def count_list_distinct)

lemma add_to_history_last:
  "0 < maxHistorySize s \<Longrightarrow>
   messageHistory (add_to_history e s) \<noteq> [] \<and> last (messageHistory (add_to_history e s)) = e"
  by (cases "messageHistory s") (auto simp: add_to_history_messageHistory)

subsection \<open>The history ring\<close>

text \<open>
  C1. Whatever else happens to the relay, after a run that emitted \<open>N\<close> events the
  history holds exactly the last \<open>min N 100\<close> of them, in the order emitted; and the next
  append to a full history drops its first (oldest) entry and nothing else.
\<close>

theorem history_ring_bounded_fifo:
  "messageHistory (run l (constructor c p) tr) =
     drop (length (emitted l c tr) - 100) (emitted l c tr) \<and>
   length (messageHistory (run l (constructor c p) tr)) = min (length (emitted l c tr)) 100 \<and>
   messageHistory (broadcastEvent e (run l (constructor c p) tr)) =
     (if length (messageHistory (run l (constructor c p) tr)) = 100
      then tl (messageHistory (run l (constructor c p) tr)) @ [e]
      else messageHistory (run l (constructor c p) tr) @ [e])"
proof -
  let ?s = "run l (constructor c p) tr"
  have h: "messageHistory ?s = drop (length (emitted l c tr) - 100) (emitted l c tr)"
    by (rule run_messageHistory)
  have n: "length (messageHistory ?s) = min (length (emitted l c tr)) 100"
    unfolding h by simp
  have "length (messageHistory ?s) \<le> 100"
    unfolding n by simp
  then have "messageHistory (broadcastEvent e ?s) =
     (if length (messageHistory ?s) = 100 then tl (messageHistory ?s) @ [e]
      else messageHistory ?s @ [e])"
    by (cases "messageHistory ?s") (auto simp: add_to_history_messageHistory)
  with h n show ?thesis by blast
qed

subsection \<open>Replay at connect and live broadcast\<close>

lemma replayed_append [simp]: "replayed (xs @ ys) = replayed xs @ replayed ys"
  by (induction xs rule: replayed.induct) simp_all

lemma live_append [simp]: "live (xs @ ys) = live xs @ live ys"
  by (induction xs rule: live.induct) simp_all

lemma step_readyState:
  "readyState (sockets (step l s a) w) =
     (case a of
        Connection _ \<Rightarrow> (if w = nsockets s then OPEN else readyState (sockets s w))
      | BeginClose ws \<Rightarrow>
          (if w = ws \<and> ws < nsockets s \<and> readyState (sockets s ws) = OPEN then CLOSING
           else readyState (sockets s w))
      | Close ws \<Rightarrow> (if w = ws \<and> ws < nsockets s then CLOSED else readyState (sockets s w))
      | _ \<Rightarrow> readyState (sockets s w))"
  by (cases a) (simp_all add: on_ReceiveCrossChainMessage_def on_SendCrossChainMessage_def)

lemma step_outbox_old:
  assumes "wf_clients s" and "w < nsockets s"
  shows "replayed (outbox (sockets (step l s a) w)) = replayed (outbox (sockets s w)) \<and>
         live (outbox (sockets (step l s a) w)) =
           live (outbox (sockets s w)) @
             (if w \<in> set (clients s) \<and> readyState (sockets s w) = OPEN
              then emitted_by l (cfg s) a else [])"
proof (cases a)
  case (Connection now)
  then show ?thesis using assms by (simp add: on_connection_outbox)
next
  case (Message ws raw)
  obtain m where m: "on_message l ws raw s = ws_send ws m s" "replayed [m] = []" "live [m] = []"
    using on_message_shape by blast
  show ?thesis using Message m by (simp add: ws_send_outbox)
next
  case (BeginClose ws)
  then show ?thesis by simp
next
  case (Close ws)
  then show ?thesis by simp
next
  case (ReceiveCrossChainMessage n x t)
  then show ?thesis using assms
    by (simp add: on_ReceiveCrossChainMessage_def broadcastEvent_outbox_wf monitored_def)
next
  case (SendCrossChainMessage n x t)
  then show ?thesis using assms
    by (simp add: on_SendCrossChainMessage_def broadcastEvent_outbox_wf monitored_def)
qed

lemma run_nsockets_mono: "nsockets s \<le> nsockets (run l s tr)"
  by (induction tr rule: rev_induct) (auto simp: step_nsockets split: occurrence.splits)

lemma session_stays_open:
  assumes "wf_clients s" "w < nsockets s" "w \<in> set (clients s)" "readyState (sockets s w) = OPEN"
    and "BeginClose w \<notin> set tr" "Close w \<notin> set tr"
  shows "w \<in> set (clients (run l s tr)) \<and> readyState (sockets (run l s tr) w) = OPEN"
  using assms(5,6)
proof (induction tr rule: rev_induct)
  case Nil
  show ?case using assms by simp
next
  case (snoc a tr)
  then have IH: "w \<in> set (clients (run l s tr))" "readyState (sockets (run l s tr) w) = OPEN"
    by simp_all
  have lt: "w < nsockets (run l s tr)"
    using assms(2) run_nsockets_mono [of s l tr] by simp
  from snoc.prems have "a \<noteq> BeginClose w" "a \<noteq> Close w" by auto
  then show ?case using IH lt
    by (cases a)
       (auto simp: Set_add_def on_ReceiveCrossChainMessage_def on_SendCrossChainMessage_def)
qed

lemma session_outbox_run:
  assumes "wf_clients s" "w < nsockets s" "w \<in> set (clients s)" "readyState (sockets s w) = OPEN"
    and "BeginClose w \<notin> set tr" "Close w \<notin> set tr"
  shows "replayed (outbox (sockets (run l s tr) w)) = replayed (outbox (sockets s w)) \<and>
         live (outbox (sockets (run l s tr) w)) =
           live (outbox (sockets s w)) @ emitted l (cfg s) tr"
  using assms(5,6)
proof (induction tr rule: rev_induct)
  case Nil
  show ?case by simp
next
  case (snoc a tr)
  then have IH: "replayed (outbox (sockets (run l s tr) w)) = replayed (outbox (sockets s w))"
    "live (outbox (sockets (run l s tr) w)) = live (outbox (sockets s w)) @ emitted l (cfg s) tr"
    by simp_all
  have op: "w \<in> set (clients (run l s tr))" "readyState (sockets (run l s tr) w) = OPEN"
    using session_stays_open [OF assms(1-4), of tr l] snoc.prems by simp_all
  have lt: "w < nsockets (run l s tr)"
    using assms(2) run_nsockets_mono [of s l tr] by simp
  have wfr: "wf_clients (run l s tr)"
    using assms(1) by (rule wf_clients_run)
  show ?case
    using step_outbox_old [OF wfr lt, of l a] IH op
    by simp
qed

lemma demo_monitored [simp]:
  "''A'' \<in> set (Object_keys (networks demo_config))"
  "''B'' \<in> set (Object_keys (networks demo_config))"
  by (simp_all add: demo_config_def Object_keys_def)

lemma emitted_Cons [simp]: "emitted l c (a # tr) = emitted_by l c a @ emitted l c tr"
  by (simp add: emitted_def)

lemma emitted_replicate_send:
  "networkName \<in> set (Object_keys (networks c)) \<Longrightarrow>
   emitted l c (replicate n (SendCrossChainMessage networkName a now)) =
     replicate n (sent_event l networkName a now)"
  by (induction n) simp_all

lemma run_replicate_send_nsockets:
  "nsockets (run l s (replicate n (SendCrossChainMessage networkName a now))) = nsockets s"
  by (induction n arbitrary: s) (simp_all add: step_nsockets del: step.simps)

lemma connected_session_outbox:
  assumes "s0 = run l (constructor c p) pre" and "ws = nsockets s0"
    and "box = outbox (sockets (run l s0 (Connection now # post)) ws)"
    and "BeginClose ws \<notin> set post" and "Close ws \<notin> set post"
  shows "replayed box = drop (length (emitted l c pre) - 100) (emitted l c pre) \<and>
         live box = emitted l c post"
proof -
  let ?s1 = "step l s0 (Connection now)"
  have wf0: "wf_clients s0"
    unfolding assms(1) by (simp add: wf_clients_run)
  have wf1: "wf_clients ?s1" using wf0 by (rule wf_clients_step)
  have a: "ws < nsockets ?s1" "ws \<in> set (clients ?s1)" "readyState (sockets ?s1 ws) = OPEN"
    unfolding assms(2) by (simp_all add: Set_add_def)
  have b: "outbox (sockets ?s1 ws) =
     Connected now (Object_keys (networks (cfg s0))) #
       (if messageHistory s0 = [] then [] else [History (messageHistory s0)])"
    unfolding assms(2) by (simp add: on_connection_outbox)
  have c: "cfg ?s1 = c" unfolding assms(1) by simp
  have h: "messageHistory s0 = drop (length (emitted l c pre) - 100) (emitted l c pre)"
    unfolding assms(1) by (rule run_messageHistory)
  have "replayed (outbox (sockets ?s1 ws)) = messageHistory s0"
    "live (outbox (sockets ?s1 ws)) = []"
    unfolding b by simp_all
  with session_outbox_run [OF wf1 a assms(4,5), of l] c h show ?thesis
    unfolding assms(3) by simp
qed

text \<open>
  C2, as the relay does it. A session connects after the run \<open>pre\<close>, and its socket is
  neither closing nor closed during the run \<open>post\<close> that follows. Then the events replayed
  to it are the history at the moment of the connection, that is the last \<open>min N 100\<close> of
  the \<open>N\<close> events emitted before, and the events broadcast live to it are the events
  emitted after, each once and in order. Together they are every event still in the history
  at the connection and every later event, with no event in both.
\<close>

theorem replay_and_live_cover:
  assumes "s0 = run l (constructor c p) pre" and "ws = nsockets s0"
    and "box = outbox (sockets (run l s0 (Connection now # post)) ws)"
    and "BeginClose ws \<notin> set post" and "Close ws \<notin> set post"
  shows "replayed box = drop (length (emitted l c pre) - 100) (emitted l c pre) \<and>
         live box = emitted l c post"
  using assms by (rule connected_session_outbox)

text \<open>The theorem of C2 on a run with one event before the connection and one after.\<close>

theorem replay_and_live_cover_witness:
  "replayed (outbox (sockets (run demo_lib (constructor demo_config 8080)
       ([SendCrossChainMessage ''A'' (demo_send ''m1'' ''0x6869'') ''t1''] @
        Connection ''t2'' # [ReceiveCrossChainMessage ''B'' (demo_receive ''m1'' ''0x6869'') ''t3''])) 0))
     = [sent_event demo_lib ''A'' (demo_send ''m1'' ''0x6869'') ''t1''] \<and>
   live (outbox (sockets (run demo_lib (constructor demo_config 8080)
       ([SendCrossChainMessage ''A'' (demo_send ''m1'' ''0x6869'') ''t1''] @
        Connection ''t2'' # [ReceiveCrossChainMessage ''B'' (demo_receive ''m1'' ''0x6869'') ''t3''])) 0))
     = [received_event demo_lib ''B'' (demo_receive ''m1'' ''0x6869'') ''t3'']"
  using replay_and_live_cover [where l = demo_lib and c = demo_config and p = 8080
      and pre = "[SendCrossChainMessage ''A'' (demo_send ''m1'' ''0x6869'') ''t1'']"
      and now = "''t2''"
      and post = "[ReceiveCrossChainMessage ''B'' (demo_receive ''m1'' ''0x6869'') ''t3'']",
      OF refl refl refl]
  by (simp add: run_append emitted_def step_nsockets monitored_def
      on_SendCrossChainMessage_def del: step.simps)

text \<open>
  C2 as stated fails once the history has overflowed: of 101 events emitted before a
  connection, the first is neither replayed to the new session nor broadcast to it.
\<close>

theorem evicted_event_reaches_no_later_session:
  "sent_event demo_lib ''A'' (demo_send ''m0'' ''0x6869'') ''t0''
     \<in> set (emitted demo_lib demo_config
         (SendCrossChainMessage ''A'' (demo_send ''m0'' ''0x6869'') ''t0'' #
          replicate 100 (SendCrossChainMessage ''A'' (demo_send ''m1'' ''0x6869'') ''t1'') @
          [Connection ''t2''])) \<and>
   sent_event demo_lib ''A'' (demo_send ''m0'' ''0x6869'') ''t0''
     \<notin> set (replayed (outbox (sockets (run demo_lib (constructor demo_config 8080)
         (SendCrossChainMessage ''A'' (demo_send ''m0'' ''0x6869'') ''t0'' #
          replicate 100 (SendCrossChainMessage ''A'' (demo_send ''m1'' ''0x6869'') ''t1'') @
          [Connection ''t2''])) 0)) @
        live (outbox (sockets (run demo_lib (constructor demo_config 8080)
         (SendCrossChainMessage ''A'' (demo_send ''m0'' ''0x6869'') ''t0'' #
          replicate 100 (SendCrossChainMessage ''A'' (demo_send ''m1'' ''0x6869'') ''t1'') @
          [Connection ''t2''])) 0)))"
proof -
  let ?pre = "SendCrossChainMessage ''A'' (demo_send ''m0'' ''0x6869'') ''t0'' #
          replicate 100 (SendCrossChainMessage ''A'' (demo_send ''m1'' ''0x6869'') ''t1'')"
  let ?s0 = "run demo_lib (constructor demo_config 8080) ?pre"
  have n: "nsockets ?s0 = 0"
    by (simp add: run_replicate_send_nsockets step_nsockets del: step.simps)
  have r: "replayed (outbox (sockets (run demo_lib ?s0 (Connection ''t2'' # [])) 0)) =
      drop (length (emitted demo_lib demo_config ?pre) - 100) (emitted demo_lib demo_config ?pre) \<and>
    live (outbox (sockets (run demo_lib ?s0 (Connection ''t2'' # [])) 0)) =
      emitted demo_lib demo_config []"
    by (rule connected_session_outbox [OF refl n [symmetric]]) simp_all
  have e: "emitted demo_lib demo_config ?pre =
      sent_event demo_lib ''A'' (demo_send ''m0'' ''0x6869'') ''t0'' #
      replicate 100 (sent_event demo_lib ''A'' (demo_send ''m1'' ''0x6869'') ''t1'')"
    by (simp add: emitted_replicate_send)
  have d: "sent_event demo_lib ''A'' (demo_send ''m0'' ''0x6869'') ''t0'' \<noteq>
      sent_event demo_lib ''A'' (demo_send ''m1'' ''0x6869'') ''t1''"
    by (simp add: sent_event_def demo_send_def)
  have a: "run demo_lib (constructor demo_config 8080) (?pre @ [Connection ''t2'']) =
      run demo_lib ?s0 (Connection ''t2'' # [])"
    by (simp only: run_append)
  show ?thesis
    using r d unfolding e a [simplified] by (simp add: emitted_replicate_send)
qed

subsection \<open>Statistics\<close>

lemma emitted_by_type:
  "e \<in> set (emitted_by l c a) \<Longrightarrow> type e = ''message_sent'' \<or> type e = ''message_received''"
  by (cases a) (auto simp: received_event_def sent_event_def split: if_splits)

lemma emitted_type:
  "e \<in> set (emitted l c tr) \<Longrightarrow> type e = ''message_sent'' \<or> type e = ''message_received''"
  by (auto simp: emitted_def dest: emitted_by_type)

lemma run_history_type:
  "e \<in> set (messageHistory (run l (constructor c p) tr)) \<Longrightarrow>
   type e = ''message_sent'' \<or> type e = ''message_received''"
  unfolding run_messageHistory by (blast dest: in_set_dropD emitted_type)

lemma emitted_replicate_receive:
  "networkName \<in> set (Object_keys (networks c)) \<Longrightarrow>
   emitted l c (replicate n (ReceiveCrossChainMessage networkName a now)) =
     replicate n (received_event l networkName a now)"
  by (induction n) simp_all

lemma replicate_numeral_unfold:
  "replicate (numeral k) x = x # replicate (pred_numeral k) x"
  by (simp add: numeral_eq_Suc)

subsection \<open>The connection handshake\<close>

lemma handshake_append [simp]: "handshake (xs @ ys) = handshake xs @ handshake ys"
  by (induction xs rule: handshake.induct) simp_all

lemma handshake_replicate_EventMsg [simp]: "handshake (replicate n (EventMsg e)) = []"
  by (induction n) simp_all

lemma on_message_shape_handshake:
  "\<exists>m. on_message l ws raw s = ws_send ws m s \<and> handshake [m] = []"
  by (cases "JSON_parse l raw")
     (auto simp: on_message_def handleClientMessage_def unknown_type_def stats_msg_def
        split: sum.splits option.splits json.splits)

lemma step_outbox_grows:
  assumes "w < nsockets s"
  shows "\<exists>ms. outbox (sockets (step l s a) w) = outbox (sockets s w) @ ms \<and> handshake ms = []"
proof (cases a)
  case (Connection now)
  then show ?thesis using assms by (simp add: on_connection_outbox)
next
  case (Message ws raw)
  obtain m where m: "on_message l ws raw s = ws_send ws m s" "handshake [m] = []"
    using on_message_shape_handshake by blast
  show ?thesis using Message m by (auto simp: ws_send_outbox)
next
  case (BeginClose ws)
  then show ?thesis by simp
next
  case (Close ws)
  then show ?thesis by simp
next
  case (ReceiveCrossChainMessage n x t)
  then show ?thesis
    by (simp add: on_ReceiveCrossChainMessage_def broadcastEvent_outbox)
next
  case (SendCrossChainMessage n x t)
  then show ?thesis
    by (simp add: on_SendCrossChainMessage_def broadcastEvent_outbox)
qed

lemma run_outbox_grows:
  assumes "w < nsockets s"
  shows "\<exists>ms. outbox (sockets (run l s tr) w) = outbox (sockets s w) @ ms \<and> handshake ms = []"
proof (induction tr rule: rev_induct)
  case Nil
  show ?case by simp
next
  case (snoc a tr)
  then obtain ms where ms: "outbox (sockets (run l s tr) w) = outbox (sockets s w) @ ms"
    "handshake ms = []" by blast
  have "w < nsockets (run l s tr)"
    using assms run_nsockets_mono [of s l tr] by simp
  then obtain ms' where ms': "outbox (sockets (step l (run l s tr) a) w) =
      outbox (sockets (run l s tr) w) @ ms'" "handshake ms' = []"
    using step_outbox_grows by blast
  show ?case using ms ms' by simp
qed

text \<open>
  C5, as the relay does it. On every accepted connection the relay sends the new socket one
  \<^verbatim>\<open>connected\<close> message listing the configured networks, and then, when the history
  is not empty, one \<^verbatim>\<open>history\<close> message with the whole history; when the history is
  empty it sends no \<^verbatim>\<open>history\<close> message. These come before anything else on the
  socket, and whatever happens afterwards the socket is sent no further message of either
  kind.
\<close>

theorem connection_ack_then_history:
  "let s = run l (constructor c p) tr; ws = nsockets s;
       hello = Connected now (Object_keys (networks c)) #
         (if messageHistory s = [] then [] else [History (messageHistory s)])
   in outbox (sockets (step l s (Connection now)) ws) = hello \<and>
      prefix hello (outbox (sockets (run l s (Connection now # post)) ws)) \<and>
      handshake (outbox (sockets (run l s (Connection now # post)) ws)) = hello"
proof -
  let ?s = "run l (constructor c p) tr"
  let ?ws = "nsockets ?s"
  let ?hello = "Connected now (Object_keys (networks c)) #
         (if messageHistory ?s = [] then [] else [History (messageHistory ?s)])"
  let ?s1 = "step l ?s (Connection now)"
  have a: "outbox (sockets ?s1 ?ws) = ?hello"
    by (simp add: on_connection_outbox)
  have "?ws < nsockets ?s1" by simp
  then obtain ms where ms: "outbox (sockets (run l ?s1 post) ?ws) = outbox (sockets ?s1 ?ws) @ ms"
    "handshake ms = []"
    using run_outbox_grows by blast
  have "outbox (sockets (run l ?s (Connection now # post)) ?ws) = ?hello @ ms"
    using ms(1) a by simp
  then show ?thesis
    using a ms(2) by (simp add: Let_def del: run_Cons step.simps)
qed

text \<open>
  C5 as stated fails on an empty history: the first session of a fresh relay is sent the
  acknowledgement and nothing else.
\<close>

theorem connection_to_empty_history_sends_no_history:
  "outbox (sockets (run demo_lib (constructor demo_config 8080) [Connection ''t0'']) 0) =
     [Connected ''t0'' [''A'', ''B'']]"
  by (simp add: on_connection_outbox demo_config_def Object_keys_def)

subsection \<open>Broadcast and the registry\<close>

text \<open>
  C4, as the relay does it. A broadcast sends the event to every registered session whose
  socket is open and skips the others; it is a total function, so nothing is raised, and a
  skipped session costs no other session its delivery. The broadcast leaves the registry as
  it is. A session leaves the registry when its socket emits \<^verbatim>\<open>close\<close>, and that
  removes this session only.
\<close>

theorem broadcast_skips_closed_and_keeps_registry:
  "let s = run l (constructor c p) tr
   in clients (broadcastEvent e s) = clients s \<and>
      sockets (broadcastEvent e s) w =
        (if w \<in> set (clients s) \<and> readyState (sockets s w) = OPEN
         then (sockets s w)\<lparr> outbox := outbox (sockets s w) @ [EventMsg e] \<rparr>
         else sockets s w) \<and>
      set (clients (step l s (Close ws))) =
        (if ws < nsockets s then set (clients s) - {ws} else set (clients s))"
proof -
  let ?s = "run l (constructor c p) tr"
  have wf: "wf_clients ?s" by (simp add: wf_clients_run)
  have "sockets (broadcastEvent e ?s) w =
      (sockets ?s w)\<lparr> outbox := outbox (sockets (broadcastEvent e ?s) w) \<rparr>"
    by (rule socket.equality) simp_all
  then show ?thesis
    using broadcastEvent_outbox_wf [OF wf, of e w]
    by (auto simp: Let_def)
qed

text \<open>
  C4 as stated fails where it has the failed delivery remove the session: session 0 is
  closing when an event is broadcast, session 1 is sent the event, session 0 is not, and
  session 0 is still registered after the broadcast.
\<close>

theorem skipped_session_stays_registered:
  "0 \<in> set (clients (run demo_lib (constructor demo_config 8080)
       [Connection ''t0'', Connection ''t1'', BeginClose 0,
        SendCrossChainMessage ''A'' (demo_send ''m1'' ''0x6869'') ''t2''])) \<and>
   live (outbox (sockets (run demo_lib (constructor demo_config 8080)
       [Connection ''t0'', Connection ''t1'', BeginClose 0,
        SendCrossChainMessage ''A'' (demo_send ''m1'' ''0x6869'') ''t2'']) 0)) = [] \<and>
   live (outbox (sockets (run demo_lib (constructor demo_config 8080)
       [Connection ''t0'', Connection ''t1'', BeginClose 0,
        SendCrossChainMessage ''A'' (demo_send ''m1'' ''0x6869'') ''t2'']) 1)) =
     [sent_event demo_lib ''A'' (demo_send ''m1'' ''0x6869'') ''t2'']"
  by (simp add: on_SendCrossChainMessage_def monitored_def broadcastEvent_outbox
      on_connection_outbox Set_add_def)

subsection \<open>Normalization of contract events\<close>

lemma decode_into_message:
  "message (decode_into l bytes d) =
     (case toUtf8String l bytes of Some text \<Rightarrow> text | None \<Rightarrow> bytes) \<and>
   messageType (decode_into l bytes d) =
     (case toUtf8String l bytes of Some text \<Rightarrow> messageType d | None \<Rightarrow> Some ''hex'')"
  by (simp add: decode_into_def split: option.splits)

lemma broadcastEvent_last:
  "0 < maxHistorySize s \<Longrightarrow>
   messageHistory (broadcastEvent e s) \<noteq> [] \<and> last (messageHistory (broadcastEvent e s)) = e"
  using add_to_history_last by simp

lemma broadcastEvent_sockets_wf:
  assumes "wf_clients s"
  shows "sockets (broadcastEvent e s) w =
     (if w \<in> set (clients s) \<and> readyState (sockets s w) = OPEN
      then (sockets s w)\<lparr> outbox := outbox (sockets s w) @ [EventMsg e] \<rparr>
      else sockets s w)"
proof -
  have "sockets (broadcastEvent e s) w =
      (sockets s w)\<lparr> outbox := outbox (sockets (broadcastEvent e s) w) \<rparr>"
    by (rule socket.equality) simp_all
  then show ?thesis
    using broadcastEvent_outbox_wf [OF assms, of e w] by auto
qed

text \<open>
  C6. In every state the relay can reach, each of the two listeners turns its occurrence
  into one event: the payload is given to \<^verbatim>\<open>toUtf8String\<close>, and the event carries the
  decoded text and no flag when that succeeds, the payload as it came with
  \<^verbatim>\<open>messageType\<close> \<^verbatim>\<open>'hex'\<close> when it throws. The listener is a total function, so
  nothing is raised; either way the event becomes the newest entry of the history and is
  sent to every registered session whose socket is open.
\<close>

theorem normalization_decodes_or_flags_binary:
  "let s = run l (constructor c p) tr;
       r = received_event l rn ra rnow; s_r = on_ReceiveCrossChainMessage l rn ra rnow s;
       t = sent_event l tn ta tnow; s_t = on_SendCrossChainMessage l tn ta tnow s
   in message (data r) =
        (case toUtf8String l (tm_message (r_teleporterMessage ra)) of
           Some text \<Rightarrow> text | None \<Rightarrow> tm_message (r_teleporterMessage ra)) \<and>
      messageType (data r) =
        (case toUtf8String l (tm_message (r_teleporterMessage ra)) of
           Some text \<Rightarrow> None | None \<Rightarrow> Some ''hex'') \<and>
      message (data t) =
        (case toUtf8String l (sm_message (s_message ta)) of
           Some text \<Rightarrow> text | None \<Rightarrow> sm_message (s_message ta)) \<and>
      messageType (data t) =
        (case toUtf8String l (sm_message (s_message ta)) of
           Some text \<Rightarrow> None | None \<Rightarrow> Some ''hex'') \<and>
      messageHistory s_r \<noteq> [] \<and> last (messageHistory s_r) = r \<and>
      messageHistory s_t \<noteq> [] \<and> last (messageHistory s_t) = t \<and>
      sockets s_r w =
        (if w \<in> set (clients s) \<and> readyState (sockets s w) = OPEN
         then (sockets s w)\<lparr> outbox := outbox (sockets s w) @ [EventMsg r] \<rparr>
         else sockets s w) \<and>
      sockets s_t w =
        (if w \<in> set (clients s) \<and> readyState (sockets s w) = OPEN
         then (sockets s w)\<lparr> outbox := outbox (sockets s w) @ [EventMsg t] \<rparr>
         else sockets s w)"
proof -
  let ?s = "run l (constructor c p) tr"
  have wf: "wf_clients ?s" by (simp add: wf_clients_run)
  have m: "0 < maxHistorySize ?s" by simp
  show ?thesis
    unfolding Let_def on_ReceiveCrossChainMessage_def on_SendCrossChainMessage_def
    using broadcastEvent_last [OF m] broadcastEvent_sockets_wf [OF wf]
    by (simp add: received_event_def sent_event_def decode_into_message
        option.case_eq_if)
qed

subsection \<open>Client messages\<close>

text \<open>
  C8, as the relay does it. A \<^verbatim>\<open>subscribe\<close> request is answered with one
  \<^verbatim>\<open>subscribed\<close> message to the requesting socket, carrying the requested networks or,
  when the request has none, all configured networks. Nothing else changes: the relay keeps
  no filter, so the registry, the history, every other socket and the sessions a later
  broadcast reaches are as before, and no history is replayed.
\<close>

theorem subscribe_only_acknowledges:
  assumes "JSON_parse l raw = Inr (JObj kvs)"
    and "map_of kvs ''type'' = Some (JStr ''subscribe'')"
    and "s' = on_message l ws raw s"
  shows "s' = s\<lparr> sockets := (sockets s)(ws := (sockets s ws)
             \<lparr> outbox := outbox (sockets s ws) @
                 [Subscribed (or_else (map_of kvs ''networks'')
                    (JArr (map JStr (Object_keys (networks (cfg s))))))] \<rparr>) \<rparr> \<and>
         clients s' = clients s \<and> messageHistory s' = messageHistory s \<and>
         replayed (outbox (sockets s' ws)) = replayed (outbox (sockets s ws)) \<and>
         clients (broadcastEvent e s') = clients (broadcastEvent e s) \<and>
         live (outbox (sockets (broadcastEvent e s') w)) =
           live (outbox (sockets (broadcastEvent e s) w))"
proof -
  have a: "s' = ws_send ws (Subscribed (or_else (map_of kvs ''networks'')
                    (JArr (map JStr (Object_keys (networks (cfg s)))))))  s"
    unfolding assms(3) using assms(1,2)
    by (simp add: on_message_def handleClientMessage_def)
  show ?thesis
    unfolding a by (simp add: ws_send_def broadcastEvent_outbox)
qed

text \<open>The theorem of C8 on the first session of a relay, subscribing to network A.\<close>

theorem subscribe_only_acknowledges_witness:
  "on_message subscribe_lib 0 ''subscribe A''
     (run subscribe_lib (constructor demo_config 8080) [Connection ''t0'']) =
   (run subscribe_lib (constructor demo_config 8080) [Connection ''t0''])
     \<lparr> sockets := (sockets (run subscribe_lib (constructor demo_config 8080) [Connection ''t0'']))
        (0 := \<lparr> readyState = OPEN,
                outbox = [Connected ''t0'' [''A'', ''B''], Subscribed (JArr [JStr ''A''])] \<rparr>) \<rparr>"
proof -
  have p: "JSON_parse subscribe_lib ''subscribe A'' =
      Inr (JObj [(''type'', JStr ''subscribe''), (''networks'', JArr [JStr ''A''])])"
    by (simp add: subscribe_lib_def subscribe_A_def)
  have k: "map_of [(''type'', JStr ''subscribe''), (''networks'', JArr [JStr ''A''])] ''type'' =
      Some (JStr ''subscribe'')"
    by simp
  have o: "sockets (run subscribe_lib (constructor demo_config 8080) [Connection ''t0'']) 0 =
      \<lparr> readyState = OPEN, outbox = [Connected ''t0'' [''A'', ''B'']] \<rparr>"
    by (rule socket.equality)
       (simp_all add: on_connection_outbox demo_config_def Object_keys_def)
  show ?thesis
    using subscribe_only_acknowledges [OF p k refl, of 0
        "run subscribe_lib (constructor demo_config 8080) [Connection ''t0'']",
        THEN conjunct1]
    unfolding o by simp
qed

text \<open>
  C8 as stated fails where it has the request update a filter of the session: after
  subscribing to network A alone, the registry is what it was and the session is still sent
  an event of network B.
\<close>

theorem subscription_does_not_filter:
  "live (outbox (sockets (run subscribe_lib (constructor demo_config 8080)
       [Connection ''t0'', Message 0 ''subscribe A'',
        ReceiveCrossChainMessage ''B'' (demo_receive ''m1'' ''0x6869'') ''t1'']) 0)) =
     [received_event subscribe_lib ''B'' (demo_receive ''m1'' ''0x6869'') ''t1''] \<and>
   network (received_event subscribe_lib ''B'' (demo_receive ''m1'' ''0x6869'') ''t1'') = ''B'' \<and>
   clients (run subscribe_lib (constructor demo_config 8080)
       [Connection ''t0'', Message 0 ''subscribe A'']) =
     clients (run subscribe_lib (constructor demo_config 8080) [Connection ''t0'']) \<and>
   JSON_parse subscribe_lib ''subscribe A'' =
     Inr (JObj [(''type'', JStr ''subscribe''), (''networks'', JArr [JStr ''A''])])"
  by (simp add: on_ReceiveCrossChainMessage_def monitored_def broadcastEvent_outbox
      on_connection_outbox Set_add_def on_message_def handleClientMessage_def ws_send_outbox
      subscribe_lib_def subscribe_A_def received_event_def)

text \<open>
  C9. A client message that \<^verbatim>\<open>JSON.parse\<close> rejects, or whose \<^verbatim>\<open>type\<close> is neither
  \<^verbatim>\<open>subscribe\<close> nor \<^verbatim>\<open>get_stats\<close>, is answered with one \<^verbatim>\<open>error\<close> message
  to the socket it came from. The registry, the history, the state of that socket and every
  other socket are unchanged.
\<close>

theorem malformed_message_error_reply:
  assumes "JSON_parse l raw = Inl err \<or>
           (JSON_parse l raw = Inr d \<and>
            get_prop d ''type'' \<noteq> Inr (Some (JStr ''subscribe'')) \<and>
            get_prop d ''type'' \<noteq> Inr (Some (JStr ''get_stats'')))"
    and "desc = (case JSON_parse l raw of
                   Inl err \<Rightarrow> err
                 | Inr d \<Rightarrow> (if d = JNull then TypeError_null else ''Unknown message type''))"
    and "s' = on_message l ws raw s"
  shows "s' = s\<lparr> sockets := (sockets s)(ws := (sockets s ws)
             \<lparr> outbox := outbox (sockets s ws) @ [Error desc] \<rparr>) \<rparr> \<and>
         clients s' = clients s \<and> messageHistory s' = messageHistory s \<and>
         readyState (sockets s' ws) = readyState (sockets s ws) \<and>
         sockets s' w = (if w = ws then sockets s' ws else sockets s w)"
proof -
  have a: "s' = ws_send ws (Error desc) s"
  proof (cases "JSON_parse l raw")
    case (Inl x)
    then show ?thesis unfolding assms(2,3) by (simp add: on_message_def)
  next
    case (Inr x)
    with assms(1) have x: "x = d" "get_prop d ''type'' \<noteq> Inr (Some (JStr ''subscribe''))"
      "get_prop d ''type'' \<noteq> Inr (Some (JStr ''get_stats''))"
      by auto
    show ?thesis
      unfolding assms(2,3) using Inr x
      by (cases d)
         (auto simp: on_message_def handleClientMessage_def unknown_type_def
            split: option.splits json.splits)
  qed
  show ?thesis
    unfolding a by (simp add: ws_send_def)
qed

text \<open>The theorem of C9 on a text that does not parse and on the text \<^verbatim>\<open>null\<close>.\<close>

theorem malformed_message_error_reply_witness:
  "on_message demo_lib 0 ''{not json''
     (run demo_lib (constructor demo_config 8080) [Connection ''t0'']) =
   (run demo_lib (constructor demo_config 8080) [Connection ''t0''])
     \<lparr> sockets := (sockets (run demo_lib (constructor demo_config 8080) [Connection ''t0'']))
        (0 := \<lparr> readyState = OPEN,
                outbox = [Connected ''t0'' [''A'', ''B''], Error ''Unexpected token''] \<rparr>) \<rparr> \<and>
   on_message demo_lib 0 ''null''
     (run demo_lib (constructor demo_config 8080) [Connection ''t0'']) =
   (run demo_lib (constructor demo_config 8080) [Connection ''t0''])
     \<lparr> sockets := (sockets (run demo_lib (constructor demo_config 8080) [Connection ''t0'']))
        (0 := \<lparr> readyState = OPEN,
                outbox = [Connected ''t0'' [''A'', ''B''], Error TypeError_null] \<rparr>) \<rparr>"
proof -
  have p: "JSON_parse demo_lib ''{not json'' = Inl ''Unexpected token''"
    "JSON_parse demo_lib ''null'' = Inr JNull"
    by (simp_all add: demo_lib_def)
  have o: "sockets (run demo_lib (constructor demo_config 8080) [Connection ''t0'']) 0 =
      \<lparr> readyState = OPEN, outbox = [Connected ''t0'' [''A'', ''B'']] \<rparr>"
    by (rule socket.equality)
       (simp_all add: on_connection_outbox demo_config_def Object_keys_def)
  have g: "get_prop JNull ''type'' \<noteq> Inr (Some (JStr ''subscribe''))"
    "get_prop JNull ''type'' \<noteq> Inr (Some (JStr ''get_stats''))"
    by simp_all
  show ?thesis
    using malformed_message_error_reply [OF disjI1 [OF p(1)] refl refl, of 0
        "run demo_lib (constructor demo_config 8080) [Connection ''t0'']", THEN conjunct1]
      malformed_message_error_reply [OF disjI2 [OF conjI [OF p(2) conjI [OF g]]] refl refl, of 0
        "run demo_lib (constructor demo_config 8080) [Connection ''t0'']", THEN conjunct1]
    unfolding o p by simp
qed

subsection \<open>The statistics reply\<close>

lemma count_messages_lookup:
  "count_messages nets es n =
     (case nets n of
        None \<Rightarrow>
          (if n \<in> network ` set es \<and> n \<notin> set Object_prototype_keys
           then Some \<lparr> sent = length (filter (\<lambda>e. network e = n \<and> type e = ''message_sent'') es),
                       received = length (filter (\<lambda>e. network e = n \<and> type e \<noteq> ''message_sent'') es) \<rparr>
           else None)
      | Some k \<Rightarrow>
          Some \<lparr> sent = sent k + length (filter (\<lambda>e. network e = n \<and> type e = ''message_sent'') es),
                 received = received k +
                   length (filter (\<lambda>e. network e = n \<and> type e \<noteq> ''message_sent'') es) \<rparr>)"
proof (induction es arbitrary: nets)
  case Nil
  show ?case by (simp split: option.splits)
next
  case (Cons e es)
  show ?case
    by (simp add: Cons.IH Let_def split: option.splits)
qed

lemma finite_dom_count_messages:
  "finite (dom nets) \<Longrightarrow> finite (dom (count_messages nets es))"
  by (induction es arbitrary: nets) (simp_all add: Let_def split: option.splits)

lemma total_counted_empty [simp]: "total_counted Map.empty = 0"
  by (simp add: total_counted_def)

lemma total_counted_new:
  assumes "finite (dom nets)" and "nets n = None"
  shows "total_counted (nets(n \<mapsto> k)) = sent k + received k + total_counted nets"
proof -
  have "n \<notin> dom nets" using assms(2) by auto
  moreover have "(\<Sum>x \<in> dom nets. case (nets(n \<mapsto> k)) x of None \<Rightarrow> 0 | Some k \<Rightarrow> sent k + received k) =
      (\<Sum>x \<in> dom nets. case nets x of None \<Rightarrow> 0 | Some k \<Rightarrow> sent k + received k)"
    using assms(2) by (intro sum.cong) auto
  ultimately show ?thesis
    using assms(1) by (simp add: total_counted_def)
qed

lemma total_counted_bump:
  assumes "finite (dom nets)" and "nets n = Some k"
    and "sent k' + received k' = Suc (sent k + received k)"
  shows "total_counted (nets(n \<mapsto> k')) = Suc (total_counted nets)"
proof -
  let ?f = "\<lambda>m x. case m x of None \<Rightarrow> 0 | Some k \<Rightarrow> sent k + received (k::net_stats)"
  have d: "dom (nets(n \<mapsto> k')) = dom nets" using assms(2) by auto
  have n: "n \<in> dom nets" using assms(2) by auto
  have r: "(\<Sum>x \<in> dom nets - {n}. ?f (nets(n \<mapsto> k')) x) = (\<Sum>x \<in> dom nets - {n}. ?f nets x)"
    by (intro sum.cong) auto
  have "total_counted (nets(n \<mapsto> k')) =
      ?f (nets(n \<mapsto> k')) n + (\<Sum>x \<in> dom nets - {n}. ?f (nets(n \<mapsto> k')) x)"
    unfolding total_counted_def d using assms(1) n by (rule sum.remove)
  moreover have "total_counted nets = ?f nets n + (\<Sum>x \<in> dom nets - {n}. ?f nets x)"
    unfolding total_counted_def using assms(1) n by (rule sum.remove)
  ultimately show ?thesis
    using r assms(2,3) by simp
qed

lemma total_counted_count_messages:
  assumes "finite (dom nets)"
  shows "total_counted (count_messages nets es) =
     total_counted nets +
       length (filter (\<lambda>e. nets (network e) \<noteq> None \<or> network e \<notin> set Object_prototype_keys) es)"
  using assms
proof (induction es arbitrary: nets)
  case Nil
  show ?case by simp
next
  case (Cons e es)
  show ?case
  proof (cases "nets (network e)")
    case (Some k)
    let ?k' = "if type e = ''message_sent'' then k\<lparr> sent := sent k + 1 \<rparr>
      else k\<lparr> received := received k + 1 \<rparr>"
    let ?n' = "nets(network e \<mapsto> ?k')"
    have c: "count_messages nets (e # es) = count_messages ?n' es"
      using Some by (simp add: Let_def)
    have f: "finite (dom ?n')" using Cons.prems by simp
    have t: "total_counted ?n' = Suc (total_counted nets)"
      using Cons.prems Some by (intro total_counted_bump) auto
    have "filter (\<lambda>x. ?n' (network x) \<noteq> None \<or> network x \<notin> set Object_prototype_keys) es =
        filter (\<lambda>x. nets (network x) \<noteq> None \<or> network x \<notin> set Object_prototype_keys) es"
      using Some by (intro filter_cong) auto
    then show ?thesis
      unfolding c Cons.IH [OF f] t using Some by simp
  next
    case None
    show ?thesis
    proof (cases "network e \<in> set Object_prototype_keys")
      case True
      have c: "count_messages nets (e # es) = count_messages nets es"
        using None True by (simp add: Let_def)
      show ?thesis
        unfolding c Cons.IH [OF Cons.prems] using None True by simp
    next
      case False
      let ?k' = "if type e = ''message_sent'' then \<lparr> sent = 1, received = 0 \<rparr>
        else \<lparr> sent = 0, received = 1 \<rparr>"
      let ?n' = "nets(network e \<mapsto> ?k')"
      have c: "count_messages nets (e # es) = count_messages ?n' es"
        using None False by (simp add: Let_def)
      have f: "finite (dom ?n')" using Cons.prems by simp
      have t: "total_counted ?n' = Suc (total_counted nets)"
        using total_counted_new [OF Cons.prems None, of ?k'] by simp
      have "filter (\<lambda>x. ?n' (network x) \<noteq> None \<or> network x \<notin> set Object_prototype_keys) es =
          filter (\<lambda>x. nets (network x) \<noteq> None \<or> network x \<notin> set Object_prototype_keys) es"
        using False by (intro filter_cong) auto
      then show ?thesis
        unfolding c Cons.IH [OF f] t using None False by simp
    qed
  qed
qed

lemma total_counted_own_names:
  "total_counted (count_messages Map.empty es) =
     length (filter (\<lambda>e. network e \<notin> set Object_prototype_keys) es)"
  using total_counted_count_messages [of Map.empty es] by simp

lemma get_stats_on_message:
  assumes "JSON_parse l raw = Inr d"
    and "get_prop d ''type'' = Inr (Some (JStr ''get_stats''))"
  shows "on_message l ws raw s =
     s\<lparr> sockets := (sockets s)(ws := (sockets s ws)
        \<lparr> outbox := outbox (sockets s ws) @
            [Stats \<lparr> totalMessages = length (messageHistory s),
                     connectedClients = length (clients s),
                     stats.networks = count_messages Map.empty (messageHistory s) \<rparr>] \<rparr>) \<rparr>"
  using assms
  by (simp add: on_message_def handleClientMessage_def stats_msg_def ws_send_def)

text \<open>
  C3, as the relay does it. In every state the relay can reach, a \<^verbatim>\<open>get_stats\<close>
  request is answered within its own handler by one \<^verbatim>\<open>stats\<close> message appended to what
  the requesting socket has been sent, and nothing else in the relay changes. Its
  \<^verbatim>\<open>totalMessages\<close> is the length of the history, its \<^verbatim>\<open>connectedClients\<close> the
  number of registered sessions. For a network name that objects do not inherit, its
  \<^verbatim>\<open>networks\<close> has an entry exactly when the history has an event of that network, and
  the entry counts the history's events of that network of type \<^verbatim>\<open>message_sent\<close> and of
  type \<^verbatim>\<open>message_received\<close>; a network without an event in the history has no entry.
\<close>

theorem get_stats_reply:
  assumes "s = run l (constructor c p) tr" and "h = messageHistory s"
    and "JSON_parse l raw = Inr d"
    and "get_prop d ''type'' = Inr (Some (JStr ''get_stats''))"
    and "n \<notin> set Object_prototype_keys"
  shows "on_message l ws raw s =
           s\<lparr> sockets := (sockets s)(ws := (sockets s ws)
              \<lparr> outbox := outbox (sockets s ws) @
                  [Stats \<lparr> totalMessages = length h,
                           connectedClients = card (set (clients s)),
                           stats.networks = count_messages Map.empty h \<rparr>] \<rparr>) \<rparr> \<and>
         count_messages Map.empty h n =
           (if n \<in> network ` set h
            then Some \<lparr> sent = length (filter (\<lambda>e. network e = n \<and> type e = ''message_sent'') h),
                        received =
                          length (filter (\<lambda>e. network e = n \<and> type e = ''message_received'') h) \<rparr>
            else None)"
proof -
  have "wf_clients s"
    unfolding assms(1) by (simp add: wf_clients_run)
  then have k: "card (set (clients s)) = length (clients s)"
    by (simp add: wf_clients_def distinct_card)
  have "\<And>e. e \<in> set h \<Longrightarrow> (type e \<noteq> ''message_sent'') = (type e = ''message_received'')"
    using run_history_type [of _ l c p tr] unfolding assms(1,2) by auto
  then have "filter (\<lambda>e. network e = n \<and> type e \<noteq> ''message_sent'') h =
      filter (\<lambda>e. network e = n \<and> type e = ''message_received'') h"
    by (intro filter_cong) auto
  then show ?thesis
    using get_stats_on_message [OF assms(3,4), of ws s] assms(5)
    by (simp add: count_messages_lookup k assms(2))
qed

text \<open>The example of C3: three sent on network A, two received on network B, one session.\<close>

theorem get_stats_reply_witness:
  "on_message stats_lib 0 ''get_stats''
     (run stats_lib (constructor demo_config 8080)
        (Connection ''t0'' #
         replicate 3 (SendCrossChainMessage ''A'' (demo_send ''m1'' ''0x6869'') ''t1'') @
         replicate 2 (ReceiveCrossChainMessage ''B'' (demo_receive ''m2'' ''0xff'') ''t2''))) =
   (run stats_lib (constructor demo_config 8080)
        (Connection ''t0'' #
         replicate 3 (SendCrossChainMessage ''A'' (demo_send ''m1'' ''0x6869'') ''t1'') @
         replicate 2 (ReceiveCrossChainMessage ''B'' (demo_receive ''m2'' ''0xff'') ''t2'')))
     \<lparr> sockets := (sockets (run stats_lib (constructor demo_config 8080)
        (Connection ''t0'' #
         replicate 3 (SendCrossChainMessage ''A'' (demo_send ''m1'' ''0x6869'') ''t1'') @
         replicate 2 (ReceiveCrossChainMessage ''B'' (demo_receive ''m2'' ''0xff'') ''t2''))))
       (0 := (sockets (run stats_lib (constructor demo_config 8080)
        (Connection ''t0'' #
         replicate 3 (SendCrossChainMessage ''A'' (demo_send ''m1'' ''0x6869'') ''t1'') @
         replicate 2 (ReceiveCrossChainMessage ''B'' (demo_receive ''m2'' ''0xff'') ''t2''))) 0)
         \<lparr> outbox := outbox (sockets (run stats_lib (constructor demo_config 8080)
        (Connection ''t0'' #
         replicate 3 (SendCrossChainMessage ''A'' (demo_send ''m1'' ''0x6869'') ''t1'') @
         replicate 2 (ReceiveCrossChainMessage ''B'' (demo_receive ''m2'' ''0xff'') ''t2''))) 0) @
           [Stats \<lparr> totalMessages = 5, connectedClients = 1,
              stats.networks = count_messages Map.empty
                (replicate 3 (sent_event stats_lib ''A'' (demo_send ''m1'' ''0x6869'') ''t1'') @
                 replicate 2 (received_event stats_lib ''B'' (demo_receive ''m2'' ''0xff'') ''t2'')) \<rparr>] \<rparr>) \<rparr> \<and>
   count_messages Map.empty
     (replicate 3 (sent_event stats_lib ''A'' (demo_send ''m1'' ''0x6869'') ''t1'') @
      replicate 2 (received_event stats_lib ''B'' (demo_receive ''m2'' ''0xff'') ''t2'')) ''A'' =
     Some \<lparr> sent = 3, received = 0 \<rparr> \<and>
   count_messages Map.empty
     (replicate 3 (sent_event stats_lib ''A'' (demo_send ''m1'' ''0x6869'') ''t1'') @
      replicate 2 (received_event stats_lib ''B'' (demo_receive ''m2'' ''0xff'') ''t2'')) ''B'' =
     Some \<lparr> sent = 0, received = 2 \<rparr>"
proof -
  let ?tr = "Connection ''t0'' #
         replicate 3 (SendCrossChainMessage ''A'' (demo_send ''m1'' ''0x6869'') ''t1'') @
         replicate 2 (ReceiveCrossChainMessage ''B'' (demo_receive ''m2'' ''0xff'') ''t2'')"
  let ?s = "run stats_lib (constructor demo_config 8080) ?tr"
  let ?h = "replicate 3 (sent_event stats_lib ''A'' (demo_send ''m1'' ''0x6869'') ''t1'') @
      replicate 2 (received_event stats_lib ''B'' (demo_receive ''m2'' ''0xff'') ''t2'')"
  have h: "messageHistory ?s = ?h"
    unfolding run_messageHistory
    by (simp add: emitted_append emitted_replicate_send emitted_replicate_receive)
  have c: "clients ?s = [0]"
    by (simp add: replicate_numeral_unfold Set_add_def
        on_SendCrossChainMessage_def on_ReceiveCrossChainMessage_def monitored_def)
  have p: "JSON_parse stats_lib ''get_stats'' = Inr (JObj [(''type'', JStr ''get_stats'')])"
    by (simp add: stats_lib_def)
  have g: "get_prop (JObj [(''type'', JStr ''get_stats'')]) ''type'' =
      Inr (Some (JStr ''get_stats''))"
    by simp
  have k: "''A'' \<notin> set Object_prototype_keys" "''B'' \<notin> set Object_prototype_keys"
    by (simp_all add: Object_prototype_keys_def)
  have v: "card (set [0::nat]) = 1" "length ?h = 5"
    by simp_all
  have i: "''A'' \<in> network ` set ?h" "''B'' \<in> network ` set ?h"
    by (simp_all add: sent_event_def received_event_def)
  have f: "length (filter (\<lambda>e. network e = ''A'' \<and> type e = ''message_sent'') ?h) = 3"
    "length (filter (\<lambda>e. network e = ''A'' \<and> type e = ''message_received'') ?h) = 0"
    "length (filter (\<lambda>e. network e = ''B'' \<and> type e = ''message_sent'') ?h) = 0"
    "length (filter (\<lambda>e. network e = ''B'' \<and> type e = ''message_received'') ?h) = 2"
    by (simp_all add: sent_event_def received_event_def)
  note a = get_stats_reply [where c = demo_config and p = 8080 and tr = ?tr and ws = 0
      and n = "''A''", OF refl refl p g k(1)]
  note b = get_stats_reply [where c = demo_config and p = 8080 and tr = ?tr and ws = 0
      and n = "''B''", OF refl refl p g k(2)]
  from a b show ?thesis
    unfolding h c v by (simp only: i f if_True simp_thms)
qed

text \<open>
  C3 as stated gives every network its two counts. The relay creates the entry of a network
  at the first event of that network it meets in the history: with one event sent on
  network A, the configured network B has no entry in the reply, and so no count.
\<close>

theorem network_without_events_has_no_counts:
  "''B'' \<in> set (Object_keys (networks demo_config)) \<and>
   stats_msg (run demo_lib (constructor demo_config 8080)
       [SendCrossChainMessage ''A'' (demo_send ''m1'' ''0x6869'') ''t1'']) =
     Stats \<lparr> totalMessages = 1, connectedClients = 0,
        stats.networks = [''A'' \<mapsto> \<lparr> sent = 1, received = 0 \<rparr>] \<rparr> \<and>
   [''A'' \<mapsto> \<lparr> sent = 1, received = 0 \<rparr>] ''B'' = None"
proof -
  have h: "messageHistory (run demo_lib (constructor demo_config 8080)
       [SendCrossChainMessage ''A'' (demo_send ''m1'' ''0x6869'') ''t1'']) =
     [sent_event demo_lib ''A'' (demo_send ''m1'' ''0x6869'') ''t1'']"
    unfolding run_messageHistory by simp
  have c: "clients (run demo_lib (constructor demo_config 8080)
       [SendCrossChainMessage ''A'' (demo_send ''m1'' ''0x6869'') ''t1'']) = []"
    by (simp add: on_SendCrossChainMessage_def monitored_def)
  show ?thesis
    unfolding stats_msg_def h c
    by (simp add: sent_event_def Object_prototype_keys_def)
qed

text \<open>
  C10 on a configuration with a network named \<^verbatim>\<open>constructor\<close>. After one event received
  on that network the history has one entry, of type \<^verbatim>\<open>message_received\<close>, and the
  statistics have \<^verbatim>\<open>totalMessages\<close> 1 and an empty \<^verbatim>\<open>networks\<close>: the counts sum to
  0, not to \<^verbatim>\<open>totalMessages\<close>.
\<close>

theorem stats_counts_miss_inherited_network_name:
  "''constructor'' \<in> set (Object_keys (networks proto_config)) \<and>
   messageHistory (run demo_lib (constructor proto_config 8080)
       [ReceiveCrossChainMessage ''constructor'' (demo_receive ''m1'' ''0x6869'') ''t1'']) =
     [received_event demo_lib ''constructor'' (demo_receive ''m1'' ''0x6869'') ''t1''] \<and>
   stats_msg (run demo_lib (constructor proto_config 8080)
       [ReceiveCrossChainMessage ''constructor'' (demo_receive ''m1'' ''0x6869'') ''t1'']) =
     Stats \<lparr> totalMessages = 1, connectedClients = 0, stats.networks = Map.empty \<rparr> \<and>
   total_counted Map.empty = 0"
proof -
  have m: "''constructor'' \<in> set (Object_keys (networks proto_config))"
    by (simp add: proto_config_def Object_keys_def)
  have h: "messageHistory (run demo_lib (constructor proto_config 8080)
       [ReceiveCrossChainMessage ''constructor'' (demo_receive ''m1'' ''0x6869'') ''t1'']) =
     [received_event demo_lib ''constructor'' (demo_receive ''m1'' ''0x6869'') ''t1'']"
    unfolding run_messageHistory using m by simp
  have c: "clients (run demo_lib (constructor proto_config 8080)
       [ReceiveCrossChainMessage ''constructor'' (demo_receive ''m1'' ''0x6869'') ''t1'']) = []"
    by (simp add: on_ReceiveCrossChainMessage_def monitored_def)
  have "stats_msg (run demo_lib (constructor proto_config 8080)
       [ReceiveCrossChainMessage ''constructor'' (demo_receive ''m1'' ''0x6869'') ''t1'']) =
     Stats \<lparr> totalMessages = 1, connectedClients = 0, stats.networks = Map.empty \<rparr>"
    unfolding stats_msg_def h c
    by (simp add: received_event_def Object_prototype_keys_def)
  with m h show ?thesis by simp
qed

subsection \<open>Append before broadcast\<close>

lemma send_to_clients_steps_last:
  "last (s # send_to_clients_steps m cs s) = send_to_clients m cs s"
  by (induction cs arbitrary: s) (simp_all add: Let_def)

lemma send_to_clients_steps_length [simp]:
  "length (send_to_clients_steps m cs s) = length cs"
  by (induction cs arbitrary: s) (simp_all add: Let_def)

lemma send_to_clients_steps_history:
  "t \<in> set (send_to_clients_steps m cs s) \<Longrightarrow>
   messageHistory t = messageHistory s \<and> clients t = clients s"
  by (induction cs arbitrary: s) (auto simp: Let_def split: if_splits)

lemma broadcastEvent_steps_last:
  "last (broadcastEvent_steps e s) = broadcastEvent e s"
  using send_to_clients_steps_last [of "add_to_history e s" "EventMsg e"]
  by (simp add: broadcastEvent_steps_def broadcastEvent_def Let_def)

text \<open>
  C7. The states the relay passes through while it runs \<^verbatim>\<open>broadcastEvent\<close> in a state
  it can reach are one more than there are registered sessions, and the last of them is the
  result of the broadcast. In the first of them no socket has been sent anything yet. In
  every one of them the event is already the newest entry of the history, and the
  statistics computed from the relay are those of the first. So from the append on, and in
  particular whenever a session has been sent the event, the history and the statistics
  contain it.
\<close>

theorem history_holds_event_before_any_delivery:
  "let s = run l (constructor c p) tr; steps = broadcastEvent_steps e s
   in length steps = Suc (length (clients s)) \<and>
      last steps = broadcastEvent e s \<and>
      sockets (hd steps) = sockets s \<and>
      (\<forall>t \<in> set steps.
         messageHistory t \<noteq> [] \<and> last (messageHistory t) = e \<and>
         stats_msg t = stats_msg (hd steps))"
proof -
  let ?s = "run l (constructor c p) tr"
  let ?s1 = "add_to_history e ?s"
  have m: "0 < maxHistorySize ?s" by simp
  have l: "messageHistory ?s1 \<noteq> [] \<and> last (messageHistory ?s1) = e"
    using m by (rule add_to_history_last)
  have "\<And>t. t \<in> set (broadcastEvent_steps e ?s) \<Longrightarrow>
      messageHistory t = messageHistory ?s1 \<and> clients t = clients ?s1"
    using send_to_clients_steps_history [of _ "EventMsg e" "clients ?s1" ?s1]
    by (auto simp: broadcastEvent_steps_def Let_def)
  then have "\<forall>t \<in> set (broadcastEvent_steps e ?s).
      messageHistory t \<noteq> [] \<and> last (messageHistory t) = e \<and> stats_msg t = stats_msg ?s1"
    using l by (simp add: stats_msg_def)
  moreover have "hd (broadcastEvent_steps e ?s) = ?s1"
    by (simp add: broadcastEvent_steps_def Let_def)
  moreover have "length (broadcastEvent_steps e ?s) = Suc (length (clients ?s))"
    by (simp add: broadcastEvent_steps_def Let_def)
  ultimately show ?thesis
    using broadcastEvent_steps_last [of e ?s] by (simp add: Let_def)
qed

text \<open>
  The theorem of C7 on a relay with two sessions: the history and the events sent live to
  each session, in the three states the broadcast passes through.
\<close>

theorem history_holds_event_before_any_delivery_witness:
  "map (\<lambda>t. (messageHistory t, live (outbox (sockets t 0)), live (outbox (sockets t 1))))
     (broadcastEvent_steps (sent_event demo_lib ''A'' (demo_send ''m1'' ''0x6869'') ''t2'')
        (run demo_lib (constructor demo_config 8080) [Connection ''t0'', Connection ''t1''])) =
   [([sent_event demo_lib ''A'' (demo_send ''m1'' ''0x6869'') ''t2''], [], []),
    ([sent_event demo_lib ''A'' (demo_send ''m1'' ''0x6869'') ''t2''],
     [sent_event demo_lib ''A'' (demo_send ''m1'' ''0x6869'') ''t2''], []),
    ([sent_event demo_lib ''A'' (demo_send ''m1'' ''0x6869'') ''t2''],
     [sent_event demo_lib ''A'' (demo_send ''m1'' ''0x6869'') ''t2''],
     [sent_event demo_lib ''A'' (demo_send ''m1'' ''0x6869'') ''t2''])] \<and>
   last (messageHistory (broadcastEvent
       (sent_event demo_lib ''A'' (demo_send ''m1'' ''0x6869'') ''t2'')
       (run demo_lib (constructor demo_config 8080) [Connection ''t0'', Connection ''t1'']))) =
     sent_event demo_lib ''A'' (demo_send ''m1'' ''0x6869'') ''t2''"
proof -
  let ?e = "sent_event demo_lib ''A'' (demo_send ''m1'' ''0x6869'') ''t2''"
  let ?s = "run demo_lib (constructor demo_config 8080) [Connection ''t0'', Connection ''t1'']"
  have cl: "clients ?s = [0, 1]"
    by (simp add: Set_add_def)
  have ne: "broadcastEvent_steps ?e ?s \<noteq> []"
    by (simp add: broadcastEvent_steps_def Let_def)
  then have m: "last (broadcastEvent_steps ?e ?s) \<in> set (broadcastEvent_steps ?e ?s)"
    by (rule last_in_set)
  note T = history_holds_event_before_any_delivery [of demo_lib demo_config 8080
      "[Connection ''t0'', Connection ''t1'']" ?e, unfolded Let_def]
  have l: "last (broadcastEvent_steps ?e ?s) = broadcastEvent ?e ?s"
    using T by (rule conjunct1 [OF conjunct2])
  have "\<forall>t \<in> set (broadcastEvent_steps ?e ?s).
      messageHistory t \<noteq> [] \<and> last (messageHistory t) = ?e \<and>
      stats_msg t = stats_msg (hd (broadcastEvent_steps ?e ?s))"
    using T by (rule conjunct2 [OF conjunct2 [OF conjunct2]])
  then have "last (messageHistory (last (broadcastEvent_steps ?e ?s))) = ?e"
    using m by blast
  then have a: "last (messageHistory (broadcastEvent ?e ?s)) = ?e"
    unfolding l .
  have b: "map (\<lambda>t. (messageHistory t, live (outbox (sockets t 0)), live (outbox (sockets t 1))))
     (broadcastEvent_steps ?e ?s) =
   [([?e], [], []), ([?e], [?e], []), ([?e], [?e], [?e])]"
    by (simp add: broadcastEvent_steps_def Let_def Set_add_def add_to_history_messageHistory
        ws_send_outbox on_connection_outbox)
  from a b show ?thesis by (simp only: simp_thms)
qed

end
